theory Spec2Isabelle
  imports Complex_Main "HOL-Library.Sublist"
begin

section \<open>Federated linear regression with encrypted gradients (fed.py)\<close>

text \<open>
  The development embeds \<^verbatim>\<open>src/fed.py\<close>. The Python raises exceptions; here every
  function that can raise returns \<open>error + 'a\<close> with \<open>Inl\<close> for the exception. Mutation of
  \<^verbatim>\<open>self.weights\<close> is explicit state passing. The file calls two libraries that are
  not part of the repository. The numpy operations it uses are written out below on
  IEEE double precision numbers, with their rounding and overflow. The operations of
  phe (the Paillier cryptosystem) are parameters of the model: nothing is assumed about
  them but their types.
\<close>

subsection \<open>Exceptions\<close>

datatype error =
    ValueError string
  | TypeError string
  | AttributeError string
  | ZeroDivisionError
  | OverflowError

subsection \<open>Double precision numbers\<close>

text \<open>
  A numpy \<^verbatim>\<open>float64\<close>: a finite value, an infinity or NaN (the sign of zero is not
  kept). The finite values are the reals \<open>m \<sqdot> 2\<^sup>e\<close> with \<open>\<bar>m\<bar> < 2\<^sup>5\<^sup>3\<close>, \<open>e \<ge> -1074\<close> and
  magnitude below \<open>2\<^sup>1\<^sup>0\<^sup>2\<^sup>4\<close>. numpy arithmetic never raises on these values: division
  by zero and overflow yield an infinity or NaN.
\<close>

datatype npfloat = Fin real | PInf | NInf | NaN

definition float_grid :: "real set" where
  "float_grid = {real_of_int m * 2 powi e | m e. \<bar>m\<bar> < 2 ^ 53 \<and> - 1074 \<le> e}"

definition binary64 :: "real set" where
  "binary64 = {x \<in> float_grid. \<bar>x\<bar> < 2 ^ 1024}"

definition inf_of_sign :: "bool \<Rightarrow> npfloat" where
  "inf_of_sign positive = (if positive then PInf else NInf)"

text \<open>
  Rounding to nearest, ties to even, for a real between two neighbours of the grid:
  the nearer neighbour, and in the middle the one that is an even multiple of their
  distance.
\<close>

definition nearest_even :: "real \<Rightarrow> real" where
  "nearest_even x =
     (let lo = Sup {f \<in> float_grid. f \<le> x}; hi = Inf {f \<in> float_grid. x \<le> f}
      in if x - lo < hi - x then lo
         else if hi - x < x - lo then hi
         else if even \<lfloor>lo / (hi - lo)\<rfloor> then lo else hi)"

text \<open>
  The result of an arithmetic operation whose exact value is \<open>x\<close>: \<open>x\<close> itself when it is
  a double, an infinity from \<open>2\<^sup>1\<^sup>0\<^sup>2\<^sup>4 - 2\<^sup>9\<^sup>7\<^sup>0\<close> on (half a step beyond the largest
  double), the nearest double otherwise.
\<close>

definition rnd :: "real \<Rightarrow> npfloat" where
  "rnd x =
     (if x \<in> binary64 then Fin x
      else if 2 ^ 1024 - 2 ^ 970 \<le> \<bar>x\<bar> then inf_of_sign (0 < x)
      else Fin (nearest_even x))"

fun fneg :: "npfloat \<Rightarrow> npfloat" where
  "fneg (Fin a) = Fin (- a)"
| "fneg PInf = NInf"
| "fneg NInf = PInf"
| "fneg NaN = NaN"

fun fadd :: "npfloat \<Rightarrow> npfloat \<Rightarrow> npfloat" where
  "fadd (Fin a) (Fin b) = rnd (a + b)"
| "fadd NaN _ = NaN"
| "fadd _ NaN = NaN"
| "fadd PInf NInf = NaN"
| "fadd NInf PInf = NaN"
| "fadd PInf _ = PInf"
| "fadd _ PInf = PInf"
| "fadd NInf _ = NInf"
| "fadd _ NInf = NInf"

definition fsub :: "npfloat \<Rightarrow> npfloat \<Rightarrow> npfloat" where
  "fsub a b = fadd a (fneg b)"

fun fmul :: "npfloat \<Rightarrow> npfloat \<Rightarrow> npfloat" where
  "fmul (Fin a) (Fin b) = rnd (a * b)"
| "fmul NaN _ = NaN"
| "fmul _ NaN = NaN"
| "fmul (Fin a) PInf = (if a = 0 then NaN else inf_of_sign (0 < a))"
| "fmul (Fin a) NInf = (if a = 0 then NaN else inf_of_sign (a < 0))"
| "fmul PInf (Fin b) = (if b = 0 then NaN else inf_of_sign (0 < b))"
| "fmul NInf (Fin b) = (if b = 0 then NaN else inf_of_sign (b < 0))"
| "fmul PInf PInf = PInf"
| "fmul NInf NInf = PInf"
| "fmul PInf NInf = NInf"
| "fmul NInf PInf = NInf"

fun fdiv :: "npfloat \<Rightarrow> npfloat \<Rightarrow> npfloat" where
  "fdiv (Fin a) (Fin b) =
     (if b = 0 then (if a = 0 then NaN else inf_of_sign (0 < a)) else rnd (a / b))"
| "fdiv NaN _ = NaN"
| "fdiv _ NaN = NaN"
| "fdiv (Fin a) PInf = Fin 0"
| "fdiv (Fin a) NInf = Fin 0"
| "fdiv PInf (Fin b) = inf_of_sign (0 \<le> b)"
| "fdiv NInf (Fin b) = inf_of_sign (b < 0)"
| "fdiv PInf PInf = NaN"
| "fdiv PInf NInf = NaN"
| "fdiv NInf PInf = NaN"
| "fdiv NInf NInf = NaN"

text \<open>
  A Python int that meets a float is converted to a float first; an int too large for
  a double raises \<^verbatim>\<open>OverflowError\<close>.
\<close>

definition float_of_int :: "int \<Rightarrow> error + npfloat" where
  "float_of_int n = (case rnd (of_int n) of Fin d \<Rightarrow> Inr (Fin d) | _ \<Rightarrow> Inl OverflowError)"

text \<open>
  Sums are taken here from the last element to the first. numpy fixes no order; the
  order matters only when a partial sum is rounded.
\<close>

fun fsum :: "npfloat list \<Rightarrow> npfloat" where
  "fsum [] = Fin 0"
| "fsum (x # xs) = fadd x (fsum xs)"

subsection \<open>numpy arrays\<close>

text \<open>
  A one-dimensional array is a list. A two-dimensional array of shape \<open>(m, D)\<close> keeps its
  column count, which an empty list of rows would lose: \<^verbatim>\<open>X.shape[1]\<close> is \<open>ncols\<close>,
  \<^verbatim>\<open>len(X)\<close> is the number of rows. In an array every row has \<open>ncols\<close> entries
  (\<open>wf_matrix\<close>).
\<close>

type_synonym ndarray = "npfloat list"

record matrix =
  rows :: "npfloat list list"
  ncols :: nat

definition wf_matrix :: "matrix \<Rightarrow> bool" where
  "wf_matrix X = list_all (\<lambda>r. length r = ncols X) (rows X)"

definition np_zeros :: "nat \<Rightarrow> ndarray" where
  "np_zeros d = replicate d (Fin 0)"

text \<open>\<^verbatim>\<open>X.dot(w)\<close> for \<open>X\<close> of shape \<open>(m, D)\<close> and \<open>w\<close> of shape \<open>(D',)\<close>: needs \<open>D = D'\<close>.\<close>

definition np_dot_mv :: "matrix \<Rightarrow> ndarray \<Rightarrow> error + ndarray" where
  "np_dot_mv X w =
     (if ncols X \<noteq> length w then Inl (ValueError ''shapes not aligned'')
      else Inr (map (\<lambda>r. fsum (map2 fmul r w)) (rows X)))"

text \<open>\<^verbatim>\<open>d.dot(X)\<close> for \<open>d\<close> of shape \<open>(k,)\<close> and \<open>X\<close> of shape \<open>(m, D)\<close>: needs \<open>k = m\<close>.\<close>

definition np_dot_vm :: "ndarray \<Rightarrow> matrix \<Rightarrow> error + ndarray" where
  "np_dot_vm d X =
     (if length d \<noteq> length (rows X) then Inl (ValueError ''shapes not aligned'')
      else Inr (map (\<lambda>j. fsum (map2 (\<lambda>di r. fmul di (r ! j)) d (rows X))) [0..<ncols X]))"

text \<open>
  \<^verbatim>\<open>a - b\<close> on one-dimensional arrays, with numpy's broadcasting: equal lengths, or one
  of the two of length one.
\<close>

definition np_sub :: "ndarray \<Rightarrow> ndarray \<Rightarrow> error + ndarray" where
  "np_sub a b =
     (if length a = length b then Inr (map2 fsub a b)
      else if length a = 1 then Inr (map (\<lambda>x. fsub (hd a) x) b)
      else if length b = 1 then Inr (map (\<lambda>x. fsub x (hd b)) a)
      else Inl (ValueError ''operands could not be broadcast together''))"

text \<open>
  \<^verbatim>\<open>w -= v\<close> in place: the result has the shape of \<open>w\<close>, so only \<open>v\<close> may be broadcast.
\<close>

definition np_isub :: "ndarray \<Rightarrow> ndarray \<Rightarrow> error + ndarray" where
  "np_isub w v =
     (if length v = length w then Inr (map2 fsub w v)
      else if length v = 1 then Inr (map (\<lambda>x. fsub x (hd v)) w)
      else Inl (ValueError ''operands could not be broadcast together''))"

text \<open>An array divided by a Python int (\<^verbatim>\<open>... / len(self.X)\<close>).\<close>

definition np_div_int :: "ndarray \<Rightarrow> int \<Rightarrow> error + ndarray" where
  "np_div_int a n =
     (case float_of_int n of
        Inl e \<Rightarrow> Inl e
      | Inr d \<Rightarrow> Inr (map (\<lambda>x. fdiv x d) a))"

text \<open>
  \<^verbatim>\<open>np.mean\<close>: the sum divided by the number of elements; the mean of an empty array
  is NaN (with a warning, no exception).
\<close>

definition np_mean :: "ndarray \<Rightarrow> error + npfloat" where
  "np_mean a =
     (case float_of_int (int (length a)) of
        Inl e \<Rightarrow> Inl e
      | Inr d \<Rightarrow> Inr (fdiv (fsum a) d))"

subsection \<open>The Paillier library (phe)\<close>

text \<open>
  A key pair is identified by a number; the keys carry no more than that here. The
  four operations of the library that \<^verbatim>\<open>fed.py\<close> uses are the fields of a record, over
  a type \<open>'c\<close> of ciphertexts (\<^verbatim>\<open>EncryptedNumber\<close>) that stays abstract:
  \<^verbatim>\<open>public_key.encrypt(x)\<close>, \<^verbatim>\<open>private_key.decrypt(c)\<close>, \<^verbatim>\<open>c1 + c2\<close> and
  \<^verbatim>\<open>c / n\<close> for a Python int \<open>n\<close>. Each may raise. The randomness of encryption is not
  modelled.
\<close>

datatype pubkey = PubKey nat

datatype privkey = PrivKey nat

record 'c paillier =
  encrypt :: "pubkey \<Rightarrow> npfloat \<Rightarrow> error + 'c"
  decrypt :: "privkey \<Rightarrow> 'c \<Rightarrow> error + npfloat"
  enc_add :: "'c \<Rightarrow> 'c \<Rightarrow> error + 'c"
  enc_div :: "'c \<Rightarrow> int \<Rightarrow> error + 'c"

text \<open>Running a fallible function over a list, stopping at the first exception.\<close>

fun traverse :: "('a \<Rightarrow> error + 'b) \<Rightarrow> 'a list \<Rightarrow> error + 'b list" where
  "traverse f [] = Inr []"
| "traverse f (x # xs) =
     (case f x of
        Inl e \<Rightarrow> Inl e
      | Inr v \<Rightarrow> (case traverse f xs of Inl e \<Rightarrow> Inl e | Inr vs \<Rightarrow> Inr (v # vs)))"

text \<open>Element-wise \<^verbatim>\<open>+\<close> of two object arrays of equal length.\<close>

definition enc_vec_add :: "'c paillier \<Rightarrow> 'c list \<Rightarrow> 'c list \<Rightarrow> error + 'c list" where
  "enc_vec_add lib x y = traverse (\<lambda>(a, b). enc_add lib a b) (zip x y)"

subsection \<open>Vector helpers (lines 128 to 139)\<close>

text \<open>
  \<^verbatim>\<open>encrypt_vector(public_key, x)\<close>: the public key may be \<^verbatim>\<open>None\<close> (the local
  baseline constructs its parties so); calling \<^verbatim>\<open>None.encrypt\<close> raises, but only when
  there is an element to encrypt.
\<close>

definition encrypt_vector :: "'c paillier \<Rightarrow> pubkey option \<Rightarrow> ndarray \<Rightarrow> error + 'c list" where
  "encrypt_vector lib public_key x =
     traverse (\<lambda>i. case public_key of
                      None \<Rightarrow> Inl (AttributeError ''NoneType object has no attribute encrypt'')
                    | Some pk \<Rightarrow> encrypt lib pk i) x"

definition decrypt_vector :: "'c paillier \<Rightarrow> privkey \<Rightarrow> 'c list \<Rightarrow> error + ndarray" where
  "decrypt_vector lib private_key x = traverse (\<lambda>i. decrypt lib private_key i) x"

definition sum_encrypted_vectors :: "'c paillier \<Rightarrow> 'c list \<Rightarrow> 'c list \<Rightarrow> error + 'c list" where
  "sum_encrypted_vectors lib x y =
     (if length x \<noteq> length y
      then Inl (ValueError ''Encrypted vectors must have the same size'')
      else enc_vec_add lib x y)"

subsection \<open>Server (lines 142 to 169)\<close>

text \<open>
  \<^verbatim>\<open>paillier.generate_paillier_keypair\<close> belongs to the library: it is a parameter
  \<open>keygen\<close> of the model, from the requested length to the identifier of the key pair or
  the exception the library raises. \<^verbatim>\<open>Server.__init__\<close> has no check of its own.
\<close>

record server =
  pubkey :: pubkey
  privkey :: privkey
  n_clients :: int

definition Server_init :: "(int \<Rightarrow> error + nat) \<Rightarrow> int \<Rightarrow> int \<Rightarrow> error + server" where
  "Server_init keygen key_length n =
     (case keygen key_length of
        Inl e \<Rightarrow> Inl e
      | Inr k \<Rightarrow> Inr \<lparr>pubkey = PubKey k, privkey = PrivKey k, n_clients = n\<rparr>)"

text \<open>
  \<^verbatim>\<open>np.sum(gradients, axis=0)\<close> on a list of one-dimensional arrays. The empty list
  sums to the scalar \<open>0.0\<close>; arrays of different lengths do not form a two-dimensional
  array (\<^verbatim>\<open>ValueError\<close>); otherwise the rows are added one after the other with the
  elements' own \<^verbatim>\<open>+\<close>, the library's addition of ciphertexts.
\<close>

datatype 'c aggregate = AggScalar npfloat | AggVec "'c list"

fun enc_reduce :: "'c paillier \<Rightarrow> 'c list \<Rightarrow> 'c list list \<Rightarrow> error + 'c list" where
  "enc_reduce lib acc [] = Inr acc"
| "enc_reduce lib acc (g # gs) =
     (case enc_vec_add lib acc g of Inl e \<Rightarrow> Inl e | Inr a \<Rightarrow> enc_reduce lib a gs)"

fun np_sum_axis0 :: "'c paillier \<Rightarrow> 'c list list \<Rightarrow> error + 'c aggregate" where
  "np_sum_axis0 lib [] = Inr (AggScalar (Fin 0))"
| "np_sum_axis0 lib (g # gs) =
     (if list_all (\<lambda>h. length h = length g) gs
      then (case enc_reduce lib g gs of Inl e \<Rightarrow> Inl e | Inr s \<Rightarrow> Inr (AggVec s))
      else Inl (ValueError ''inhomogeneous shape''))"

text \<open>
  \<^verbatim>\<open>np.sum(gradients, axis=0) / self.n_clients\<close>: the scalar of the empty list is
  divided as a float, every element of a sum vector by the library's division.
\<close>

definition aggregate_gradients ::
  "'c paillier \<Rightarrow> server \<Rightarrow> 'c list list \<Rightarrow> error + 'c aggregate" where
  "aggregate_gradients lib self gradients =
     (case np_sum_axis0 lib gradients of
        Inl e \<Rightarrow> Inl e
      | Inr (AggScalar s) \<Rightarrow>
          (case float_of_int (n_clients self) of
             Inl e \<Rightarrow> Inl e
           | Inr d \<Rightarrow> Inr (AggScalar (fdiv s d)))
      | Inr (AggVec v) \<Rightarrow>
          (case traverse (\<lambda>c. enc_div lib c (n_clients self)) v of
             Inl e \<Rightarrow> Inl e
           | Inr q \<Rightarrow> Inr (AggVec q)))"

definition decrypt_gradient :: "'c paillier \<Rightarrow> server \<Rightarrow> 'c aggregate \<Rightarrow> error + ndarray" where
  "decrypt_gradient lib self gradient =
     (case gradient of
        AggScalar s \<Rightarrow> Inl (TypeError ''numpy.float64 object is not iterable'')
      | AggVec v \<Rightarrow> decrypt_vector lib (privkey self) v)"

subsection \<open>Net (lines 172 to 201)\<close>

record net =
  net_X :: matrix
  net_y :: ndarray
  weights :: ndarray

definition Net_init :: "matrix \<Rightarrow> ndarray \<Rightarrow> net" where
  "Net_init X0 y0 = \<lparr>net_X = X0, net_y = y0, weights = np_zeros (ncols X0)\<rparr>"

definition predict :: "net \<Rightarrow> matrix \<Rightarrow> error + ndarray" where
  "predict self X0 = np_dot_mv X0 (weights self)"

definition compute_gradient :: "net \<Rightarrow> error + ndarray" where
  "compute_gradient self =
     (case predict self (net_X self) of
        Inl e \<Rightarrow> Inl e
      | Inr p \<Rightarrow>
          (case np_sub p (net_y self) of
             Inl e \<Rightarrow> Inl e
           | Inr delta \<Rightarrow>
               (case np_dot_vm delta (net_X self) of
                  Inl e \<Rightarrow> Inl e
                | Inr g \<Rightarrow> np_div_int g (int (length (rows (net_X self)))))))"

text \<open>The learning rate \<open>eta\<close> is a finite Python float.\<close>

definition gradient_step :: "net \<Rightarrow> ndarray \<Rightarrow> real \<Rightarrow> error + net" where
  "gradient_step self gradient eta =
     (case np_isub (weights self) (map (\<lambda>g. fmul (Fin eta) g) gradient) of
        Inl e \<Rightarrow> Inl e
      | Inr w \<Rightarrow> Inr (self\<lparr>weights := w\<rparr>))"

text \<open>\<^verbatim>\<open>for _ in range(n_iter)\<close>: the loop of \<^verbatim>\<open>fit\<close>, by recursion on the count.\<close>

primrec fit_loop :: "nat \<Rightarrow> real \<Rightarrow> net \<Rightarrow> error + net" where
  "fit_loop 0 eta self = Inr self"
| "fit_loop (Suc n) eta self =
     (case compute_gradient self of
        Inl e \<Rightarrow> Inl e
      | Inr gradient \<Rightarrow>
          (case gradient_step self gradient eta of
             Inl e \<Rightarrow> Inl e
           | Inr self' \<Rightarrow> fit_loop n eta self'))"

definition fit :: "net \<Rightarrow> int \<Rightarrow> real \<Rightarrow> error + net" where
  "fit self n_iter eta = fit_loop (nat n_iter) eta self"

definition mean_square_error :: "ndarray \<Rightarrow> ndarray \<Rightarrow> error + npfloat" where
  "mean_square_error y_pred y0 =
     (case np_sub y0 y_pred of
        Inl e \<Rightarrow> Inl e
      | Inr d \<Rightarrow> np_mean (map (\<lambda>x. fmul x x) d))"

subsection \<open>Party (lines 204 to 229)\<close>

text \<open>
  \<^verbatim>\<open>random.random()\<close> reads and advances the global generator: the generator is the
  sequence of the numbers it will return, and a draw takes the first and shifts. The
  draw is multiplied by the double nearest to \<open>0.01\<close>, which is
  \<open>5764607523034235 / 2\<^sup>5\<^sup>9\<close>.
\<close>

type_synonym rng = "nat \<Rightarrow> real"

record party =
  name :: string
  model :: net
  party_pubkey :: "pubkey option"

definition Party_init :: "string \<Rightarrow> matrix \<Rightarrow> ndarray \<Rightarrow> pubkey option \<Rightarrow> party" where
  "Party_init nm X0 y0 pk = \<lparr>name = nm, model = Net_init X0 y0, party_pubkey = pk\<rparr>"

definition get_noise :: "rng \<Rightarrow> npfloat \<times> rng" where
  "get_noise g = (fmul (Fin (g 0)) (Fin (5764607523034235 / 2 ^ 59)), \<lambda>i. g (Suc i))"

definition compute_partial_gradient ::
  "'c paillier \<Rightarrow> party \<Rightarrow> rng \<Rightarrow> error + ('c list \<times> rng)" where
  "compute_partial_gradient lib self g =
     (case compute_gradient (model self) of
        Inl e \<Rightarrow> Inl e
      | Inr gradient \<Rightarrow>
          (let (noise, g') = get_noise g;
               noisy_gradient = map (\<lambda>x. fadd x noise) gradient
           in case encrypt_vector lib (party_pubkey self) noisy_gradient of
                Inl e \<Rightarrow> Inl e
              | Inr encrypted_gradient \<Rightarrow> Inr (encrypted_gradient, g')))"

subsection \<open>The federated training (lines 232 to 277)\<close>

text \<open>The configuration dictionary, with the four keys the code reads.\<close>

record config =
  cfg_n_clients :: int
  cfg_n_iter :: int
  cfg_key_length :: int
  cfg_eta :: real

fun str_nat :: "nat \<Rightarrow> string" where
  "str_nat n =
     (if n < 10 then [''0123456789'' ! n]
      else str_nat (n div 10) @ [''0123456789'' ! (n mod 10)])"

text \<open>\<^verbatim>\<open>['Hospital {}'.format(i) for i in range(1, n_clients + 1)]\<close>\<close>

definition hospital_names :: "int \<Rightarrow> string list" where
  "hospital_names n = map (\<lambda>i. ''Hospital '' @ str_nat i) [1..<nat n + 1]"

text \<open>
  \<^verbatim>\<open>zip(names, X, y)\<close> stops at the shortest of the three lists; each triple makes a
  party holding the server's public key.
\<close>

fun make_clients :: "string list \<Rightarrow> matrix list \<Rightarrow> ndarray list \<Rightarrow> pubkey \<Rightarrow> party list" where
  "make_clients (nm # names) (X0 # Xs) (y0 # ys) pk =
     Party_init nm X0 y0 (Some pk) # make_clients names Xs ys pk"
| "make_clients _ _ _ pk = []"

text \<open>
  \<^verbatim>\<open>asyncio.gather\<close> over the clients' coroutines. No coroutine awaits anything, so
  each runs to its end before the next starts, in the order of the clients; the first
  exception ends the round.
\<close>

fun gather_gradients ::
  "'c paillier \<Rightarrow> party list \<Rightarrow> rng \<Rightarrow> error + ('c list list \<times> rng)" where
  "gather_gradients lib [] g = Inr ([], g)"
| "gather_gradients lib (client # clients) g =
     (case compute_partial_gradient lib client g of
        Inl e \<Rightarrow> Inl e
      | Inr (encrypted_gradient, g') \<Rightarrow>
          (case gather_gradients lib clients g' of
             Inl e \<Rightarrow> Inl e
           | Inr (gradients, g'') \<Rightarrow> Inr (encrypted_gradient # gradients, g'')))"

definition client_step :: "ndarray \<Rightarrow> real \<Rightarrow> party \<Rightarrow> error + party" where
  "client_step aggregate eta c =
     (case gradient_step (model c) aggregate eta of
        Inl e \<Rightarrow> Inl e
      | Inr m \<Rightarrow> Inr (c\<lparr>model := m\<rparr>))"

text \<open>
  One pass of the loop body (lines 255 to 268). Besides the clients and the generator
  it returns \<open>gradients\<close>, the argument with which \<^verbatim>\<open>server.aggregate_gradients\<close> was
  called: what the server received in this round.
\<close>

definition training_round ::
  "'c paillier \<Rightarrow> server \<Rightarrow> real \<Rightarrow> party list \<Rightarrow> rng \<Rightarrow>
   error + (party list \<times> rng \<times> 'c list list)" where
  "training_round lib srv eta clients g =
     (case gather_gradients lib clients g of
        Inl e \<Rightarrow> Inl e
      | Inr (gradients, g') \<Rightarrow>
          (case aggregate_gradients lib srv gradients of
             Inl e \<Rightarrow> Inl e
           | Inr aggregate0 \<Rightarrow>
               (case decrypt_gradient lib srv aggregate0 of
                  Inl e \<Rightarrow> Inl e
                | Inr aggregate \<Rightarrow>
                    (case traverse (client_step aggregate eta) clients of
                       Inl e \<Rightarrow> Inl e
                     | Inr clients' \<Rightarrow> Inr (clients', g', gradients)))))"

text \<open>
  \<^verbatim>\<open>for i in range(n_iter)\<close>: the rounds in sequence; \<open>received\<close> collects the server's
  input of each round, the first round first.
\<close>

primrec training_loop ::
  "nat \<Rightarrow> 'c paillier \<Rightarrow> server \<Rightarrow> real \<Rightarrow> party list \<Rightarrow> rng \<Rightarrow> 'c list list list \<Rightarrow>
   error + (party list \<times> rng \<times> 'c list list list)" where
  "training_loop 0 lib srv eta clients g received = Inr (clients, g, received)"
| "training_loop (Suc n) lib srv eta clients g received =
     (case training_round lib srv eta clients g of
        Inl e \<Rightarrow> Inl e
      | Inr (clients', g', gradients) \<Rightarrow>
          training_loop n lib srv eta clients' g' (received @ [gradients]))"

text \<open>The report after training: each client's name and its error on the test set.\<close>

definition report_client :: "matrix \<Rightarrow> ndarray \<Rightarrow> party \<Rightarrow> error + (string \<times> npfloat)" where
  "report_client X_test y_test c =
     (case predict (model c) X_test of
        Inl e \<Rightarrow> Inl e
      | Inr y_pred \<Rightarrow>
          (case mean_square_error y_pred y_test of
             Inl e \<Rightarrow> Inl e
           | Inr mse \<Rightarrow> Inr (name c, mse)))"

text \<open>
  Session start (lines 236 to 249): the server with its fresh key pair, then the
  clients.
\<close>

definition session_start ::
  "(int \<Rightarrow> error + nat) \<Rightarrow> matrix list \<Rightarrow> ndarray list \<Rightarrow> config \<Rightarrow>
   error + (server \<times> party list)" where
  "session_start keygen Xs ys cfg =
     (let names = hospital_names (cfg_n_clients cfg)
      in case Server_init keygen (cfg_key_length cfg) (cfg_n_clients cfg) of
           Inl e \<Rightarrow> Inl e
         | Inr srv \<Rightarrow> Inr (srv, make_clients names Xs ys (pubkey srv)))"

record 'c outcome =
  final_clients :: "party list"
  server_received :: "'c list list list"
  printed :: "(string \<times> npfloat) list"

definition hybrid_learning ::
  "'c paillier \<Rightarrow> (int \<Rightarrow> error + nat) \<Rightarrow> rng \<Rightarrow> matrix list \<Rightarrow> ndarray list \<Rightarrow> matrix \<Rightarrow>
   ndarray \<Rightarrow> config \<Rightarrow> error + 'c outcome" where
  "hybrid_learning lib keygen g Xs ys X_test y_test cfg =
     (case session_start keygen Xs ys cfg of
        Inl e \<Rightarrow> Inl e
      | Inr (srv, clients) \<Rightarrow>
          (case training_loop (nat (cfg_n_iter cfg)) lib srv (cfg_eta cfg) clients g [] of
             Inl e \<Rightarrow> Inl e
           | Inr (clients', g', received) \<Rightarrow>
               (case traverse (report_client X_test y_test) clients' of
                  Inl e \<Rightarrow> Inl e
                | Inr lines \<Rightarrow>
                    Inr \<lparr>final_clients = clients', server_received = received,
                         printed = lines\<rparr>)))"

subsection \<open>Notions of the specification\<close>






text \<open>All parties of a list hold the same weight vector.\<close>

definition same_weights :: "party list \<Rightarrow> bool" where
  "same_weights cs = (\<forall>c \<in> set cs. \<forall>c' \<in> set cs. weights (model c) = weights (model c'))"




subsection \<open>Inputs for concrete runs\<close>

text \<open>
  A key generator that returns the key pair \<open>k\<close> for every requested length (the
  library's generator has no minimum length), and a random generator that always
  returns \<open>r\<close>.
\<close>

definition const_keygen :: "nat \<Rightarrow> int \<Rightarrow> error + nat" where
  "const_keygen k n_length = Inr k"

definition const_rng :: "real \<Rightarrow> rng" where
  "const_rng r i = r"

text \<open>
  An exact cipher, to run the code on: a ciphertext shows its key and the real number
  it holds, and sums and quotients are exact. The library computes the same as long as
  no encoding is rounded or leaves the range of the key; no general statement below
  is about this cipher.
\<close>

datatype enc = Enc pubkey real

fun exact_encrypt :: "pubkey \<Rightarrow> npfloat \<Rightarrow> error + enc" where
  "exact_encrypt pk (Fin a) = Inr (Enc pk a)"
| "exact_encrypt pk NaN = Inl (ValueError ''Cannot convert NaN to integer ratio'')"
| "exact_encrypt pk PInf = Inl OverflowError"
| "exact_encrypt pk NInf = Inl OverflowError"

fun exact_decrypt :: "privkey \<Rightarrow> enc \<Rightarrow> error + npfloat" where
  "exact_decrypt (PrivKey k) (Enc (PubKey k') a) =
     (if k = k' then Inr (Fin a)
      else Inl (ValueError ''encrypted_number was encrypted against a different key!''))"

fun exact_add :: "enc \<Rightarrow> enc \<Rightarrow> error + enc" where
  "exact_add (Enc k a) (Enc k' b) =
     (if k = k' then Inr (Enc k (a + b))
      else Inl (ValueError ''Attempted to add numbers encrypted against different public keys!''))"

fun exact_div :: "enc \<Rightarrow> int \<Rightarrow> error + enc" where
  "exact_div (Enc k a) n =
     (if n = 0 then Inl ZeroDivisionError else Inr (Enc k (a / of_int n)))"

definition exact_paillier :: "enc paillier" where
  "exact_paillier =
     \<lparr>encrypt = exact_encrypt, decrypt = exact_decrypt, enc_add = exact_add,
      enc_div = exact_div\<rparr>"

section \<open>Properties\<close>

subsection \<open>Doubles that need no rounding\<close>

lemma rnd_exact: "x \<in> binary64 \<Longrightarrow> rnd x = Fin x"
  by (simp add: rnd_def)

lemma binary64_of_int:
  assumes "\<bar>n\<bar> < 2 ^ 53"
  shows "real_of_int n \<in> binary64"
proof -
  have "real_of_int n = real_of_int n * 2 powi 0" by simp
  moreover have "(- 1074 :: int) \<le> 0" by simp
  ultimately have "\<exists>m e. real_of_int n = real_of_int m * 2 powi e \<and> \<bar>m\<bar> < 2 ^ 53 \<and> - 1074 \<le> e"
    using assms by blast
  then have g: "real_of_int n \<in> float_grid"
    unfolding float_grid_def by simp
  from assms have "real_of_int \<bar>n\<bar> < real_of_int (2 ^ 53)"
    by (simp only: of_int_less_iff)
  then have "\<bar>real_of_int n\<bar> < 2 ^ 53" by simp
  also have "(2::real) ^ 53 \<le> 2 ^ 1024" by (rule power_increasing) simp_all
  finally show ?thesis using g by (simp add: binary64_def)
qed

lemma binary64_0 [simp]: "0 \<in> binary64"
  using binary64_of_int [of 0] by simp

lemma binary64_1 [simp]: "1 \<in> binary64"
  using binary64_of_int [of 1] by simp

lemma binary64_neg_1 [simp]: "- 1 \<in> binary64"
  using binary64_of_int [of "- 1"] by simp

lemma binary64_numeral [simp]: "(numeral k :: int) < 2 ^ 53 \<Longrightarrow> numeral k \<in> binary64"
  using binary64_of_int [of "numeral k"] by simp

lemma binary64_neg_numeral [simp]:
  "(numeral k :: int) < 2 ^ 53 \<Longrightarrow> - numeral k \<in> binary64"
  using binary64_of_int [of "- numeral k"] by simp

lemma rnd_0 [simp]: "rnd 0 = Fin 0"
  by (simp add: rnd_exact)

lemma rnd_1 [simp]: "rnd 1 = Fin 1"
  by (simp add: rnd_exact)

lemma rnd_neg_1 [simp]: "rnd (- 1) = Fin (- 1)"
  by (simp add: rnd_exact)

lemma rnd_numeral [simp]: "(numeral k :: int) < 2 ^ 53 \<Longrightarrow> rnd (numeral k) = Fin (numeral k)"
  by (simp add: rnd_exact)

lemma rnd_neg_numeral [simp]:
  "(numeral k :: int) < 2 ^ 53 \<Longrightarrow> rnd (- numeral k) = Fin (- numeral k)"
  by (simp add: rnd_exact)

lemma float_of_int_small: "\<bar>n\<bar> < 2 ^ 53 \<Longrightarrow> float_of_int n = Inr (Fin (of_int n))"
  by (simp add: float_of_int_def rnd_exact binary64_of_int)

lemma float_of_int_0 [simp]: "float_of_int 0 = Inr (Fin 0)"
  using float_of_int_small [of 0] by simp

lemma float_of_int_1 [simp]: "float_of_int 1 = Inr (Fin 1)"
  using float_of_int_small [of 1] by simp

lemma float_of_int_numeral [simp]:
  "(numeral k :: int) < 2 ^ 53 \<Longrightarrow> float_of_int (numeral k) = Inr (Fin (numeral k))"
  using float_of_int_small [of "numeral k"] by simp

subsection \<open>Lists of fallible computations\<close>

lemma traverse_length: "traverse f xs = Inr ys \<Longrightarrow> length ys = length xs"
  by (induction xs arbitrary: ys) (auto split: sum.splits)

lemma traverse_nth:
  "traverse f xs = Inr ys \<Longrightarrow> i < length xs \<Longrightarrow> f (xs ! i) = Inr (ys ! i)"
proof (induction xs arbitrary: ys i)
  case Nil
  then show ?case by simp
next
  case (Cons x xs)
  then show ?case by (cases i) (auto split: sum.splits)
qed

lemma traverse_map_Inr:
  "(\<And>x. x \<in> set xs \<Longrightarrow> f x = Inr (h x)) \<Longrightarrow> traverse f xs = Inr (map h xs)"
  by (induction xs) auto

lemma traverse_Inl:
  "traverse f xs = Inl e \<Longrightarrow> \<exists>x \<in> set xs. f x = Inl e"
  by (induction xs) (auto split: sum.splits)

lemma traverse_set:
  "traverse f xs = Inr ys \<Longrightarrow> y \<in> set ys \<Longrightarrow> \<exists>x \<in> set xs. f x = Inr y"
  by (induction xs arbitrary: ys) (auto split: sum.splits)

lemma traverse_total:
  "(\<And>x. x \<in> set xs \<Longrightarrow> \<exists>v. f x = Inr v) \<Longrightarrow> \<exists>ys. traverse f xs = Inr ys"
proof (induction xs)
  case Nil
  then show ?case by simp
next
  case (Cons x xs)
  from Cons.prems [of x] obtain v where v: "f x = Inr v" by auto
  from Cons.IH Cons.prems obtain ys where "traverse f xs = Inr ys" by auto
  with v show ?case by simp
qed

subsection \<open>Summing two encrypted vectors\<close>

lemma sum_encrypted_vectors_mismatch:
  "length x \<noteq> length y \<Longrightarrow>
     sum_encrypted_vectors lib x y
       = Inl (ValueError ''Encrypted vectors must have the same size'')"
  by (simp add: sum_encrypted_vectors_def)

lemma sum_encrypted_vectors_elementwise:
  assumes len: "length x = length y" and res: "sum_encrypted_vectors lib x y = Inr z"
  shows "length z = length x \<and> (\<forall>i < length x. enc_add lib (x ! i) (y ! i) = Inr (z ! i))"
proof -
  from len res have t: "traverse (\<lambda>(a, b). enc_add lib a b) (zip x y) = Inr z"
    by (simp add: sum_encrypted_vectors_def enc_vec_add_def)
  have l: "length z = length x" using traverse_length [OF t] len by simp
  have "enc_add lib (x ! i) (y ! i) = Inr (z ! i)" if "i < length x" for i
  proof -
    from that len have "i < length (zip x y)" by simp
    from traverse_nth [OF t this] that len show ?thesis by simp
  qed
  with l show ?thesis by blast
qed

lemma sum_encrypted_vectors_total:
  assumes len: "length x = length y"
    and ok: "\<forall>i < length x. \<exists>c. enc_add lib (x ! i) (y ! i) = Inr c"
  shows "\<exists>z. sum_encrypted_vectors lib x y = Inr z"
proof -
  have "\<exists>v. (\<lambda>(a, b). enc_add lib a b) p = Inr v" if "p \<in> set (zip x y)" for p
  proof -
    from that obtain i where "i < length x" "p = (x ! i, y ! i)"
      using len by (auto simp: set_zip)
    with ok show ?thesis by auto
  qed
  then have "\<exists>z. traverse (\<lambda>(a, b). enc_add lib a b) (zip x y) = Inr z"
    by (rule traverse_total)
  with len show ?thesis by (simp add: sum_encrypted_vectors_def enc_vec_add_def)
qed

text \<open>
  Claim C5. \<^verbatim>\<open>sum_encrypted_vectors\<close> on vectors of unequal length raises the
  \<^verbatim>\<open>ValueError\<close> of line 138 (the size-mismatch error of the specification): nothing
  is truncated or padded, no sum is returned. On vectors of equal length every result
  has that length and its \<open>i\<close>-th element is the library's sum of the two \<open>i\<close>-th
  ciphertexts; and there is a result whenever the library adds each pair. This holds
  for every library.
\<close>

theorem sum_encrypted_vectors_sizes:
  "(length x \<noteq> length y \<longrightarrow>
      sum_encrypted_vectors lib x y
        = Inl (ValueError ''Encrypted vectors must have the same size''))
   \<and> (length x = length y \<longrightarrow>
        (\<forall>z. sum_encrypted_vectors lib x y = Inr z \<longrightarrow>
           length z = length x \<and> (\<forall>i < length x. enc_add lib (x ! i) (y ! i) = Inr (z ! i))))
   \<and> (length x = length y \<longrightarrow> (\<forall>i < length x. \<exists>c. enc_add lib (x ! i) (y ! i) = Inr c) \<longrightarrow>
        (\<exists>z. sum_encrypted_vectors lib x y = Inr z))"
proof -
  have 1: "length x \<noteq> length y \<longrightarrow>
      sum_encrypted_vectors lib x y
        = Inl (ValueError ''Encrypted vectors must have the same size'')"
    by (rule impI) (rule sum_encrypted_vectors_mismatch)
  have 2: "length x = length y \<longrightarrow>
        (\<forall>z. sum_encrypted_vectors lib x y = Inr z \<longrightarrow>
           length z = length x \<and> (\<forall>i < length x. enc_add lib (x ! i) (y ! i) = Inr (z ! i)))"
    by (intro impI allI) (rule sum_encrypted_vectors_elementwise)
  have 3: "length x = length y \<longrightarrow> (\<forall>i < length x. \<exists>c. enc_add lib (x ! i) (y ! i) = Inr c) \<longrightarrow>
        (\<exists>z. sum_encrypted_vectors lib x y = Inr z)"
    by (intro impI) (rule sum_encrypted_vectors_total)
  from 1 2 3 show ?thesis by (intro conjI)
qed

theorem sum_encrypted_vectors_sizes_witness:
  "sum_encrypted_vectors exact_paillier
       (replicate 10 (Enc (PubKey 7) 1)) (replicate 11 (Enc (PubKey 7) 2))
     = Inl (ValueError ''Encrypted vectors must have the same size'')
   \<and> (\<exists>z. sum_encrypted_vectors exact_paillier
              [Enc (PubKey 7) 1, Enc (PubKey 7) 2] [Enc (PubKey 7) 10, Enc (PubKey 7) 20]
            = Inr z
          \<and> length z = 2 \<and> exact_add (Enc (PubKey 7) 1) (Enc (PubKey 7) 10) = Inr (z ! 0)
          \<and> exact_add (Enc (PubKey 7) 2) (Enc (PubKey 7) 20) = Inr (z ! 1))"
proof -
  let ?x = "[Enc (PubKey 7) 1, Enc (PubKey 7) 2]"
  let ?y = "[Enc (PubKey 7) 10, Enc (PubKey 7) 20]"
  have l: "length (replicate 10 (Enc (PubKey 7) 1)) \<noteq> length (replicate 11 (Enc (PubKey 7) 2))"
    by simp
  have m: "length ?x = length ?y" by simp
  have ok: "\<forall>i < length ?x. \<exists>c. enc_add exact_paillier (?x ! i) (?y ! i) = Inr c"
    by (simp add: exact_paillier_def less_Suc_eq)
  have a: "enc_add exact_paillier = exact_add" by (simp add: exact_paillier_def)
  note t1 = sum_encrypted_vectors_sizes
         [of "replicate 10 (Enc (PubKey 7) 1)" "replicate 11 (Enc (PubKey 7) 2)" exact_paillier]
  note t2 = sum_encrypted_vectors_sizes [of ?x ?y exact_paillier]
  from t1 l have c1: "sum_encrypted_vectors exact_paillier
       (replicate 10 (Enc (PubKey 7) 1)) (replicate 11 (Enc (PubKey 7) 2))
     = Inl (ValueError ''Encrypted vectors must have the same size'')"
    by blast
  from t2 m ok obtain z where z: "sum_encrypted_vectors exact_paillier ?x ?y = Inr z"
    by blast
  from t2 m z have "length z = length ?x
      \<and> (\<forall>i < length ?x. enc_add exact_paillier (?x ! i) (?y ! i) = Inr (z ! i))"
    by blast
  then have lz: "length z = length ?x"
    and el: "\<And>i. i < length ?x \<Longrightarrow> enc_add exact_paillier (?x ! i) (?y ! i) = Inr (z ! i)"
    by blast+
  from el [of 0] el [of 1] lz
  have "length z = 2 \<and> exact_add (Enc (PubKey 7) 1) (Enc (PubKey 7) 10) = Inr (z ! 0)
          \<and> exact_add (Enc (PubKey 7) 2) (Enc (PubKey 7) 20) = Inr (z ! 1)"
    by (simp add: a)
  with c1 z show ?thesis by blast
qed

subsection \<open>Aggregation by the server\<close>












subsection \<open>The average the coordinator decrypts\<close>




subsection \<open>The local gradient\<close>















lemma compute_partial_gradient_rng:
  assumes "compute_partial_gradient lib c g = Inr (e, g')"
  shows "g' = (\<lambda>i. g (Suc i))"
proof (cases "compute_gradient (model c)")
  case (Inl err)
  with assms show ?thesis by (simp add: compute_partial_gradient_def)
next
  case (Inr gr)
  show ?thesis
  proof (cases "encrypt_vector lib (party_pubkey c) (map (\<lambda>x. fadd x (fst (get_noise g))) gr)")
    case (Inl err)
    with assms Inr show ?thesis
      by (simp add: compute_partial_gradient_def get_noise_def)
  next
    case enc: (Inr v)
    with assms Inr show ?thesis
      by (simp add: compute_partial_gradient_def get_noise_def)
  qed
qed

lemma gather_gradients_local:
  "gather_gradients lib cs g = Inr (grads, g') \<Longrightarrow> i < length cs \<Longrightarrow>
     compute_partial_gradient lib (cs ! i) (\<lambda>n. g (n + i))
       = Inr (grads ! i, \<lambda>n. g (n + Suc i))"
proof (induction cs arbitrary: g grads i)
  case Nil
  then show ?case by simp
next
  case (Cons c cs)
  show ?case
  proof (cases "compute_partial_gradient lib c g")
    case (Inl err)
    with Cons.prems(1) show ?thesis by simp
  next
    case (Inr p)
    obtain e g1 where p: "p = (e, g1)" by (cases p)
    from compute_partial_gradient_rng [of lib c g e g1] Inr p
    have g1: "g1 = (\<lambda>n. g (Suc n))" by simp
    show ?thesis
    proof (cases "gather_gradients lib cs g1")
      case (Inl err)
      with Cons.prems(1) Inr p show ?thesis by simp
    next
      case rest: (Inr r)
      obtain gr g2 where r: "r = (gr, g2)" by (cases r)
      from Cons.prems(1) Inr p rest r have grads: "grads = e # gr" and "g2 = g'" by simp_all
      with rest r have t: "gather_gradients lib cs g1 = Inr (gr, g')" by simp
      show ?thesis
      proof (cases i)
        case 0
        with Inr p g1 grads show ?thesis by simp
      next
        case (Suc i')
        with Cons.prems(2) have "i' < length cs" by simp
        from Cons.IH [OF t this] Suc grads show ?thesis by (simp add: g1)
      qed
    qed
  qed
qed



subsection \<open>All parties keep the same weights\<close>

lemma compute_gradient_length:
  "compute_gradient m = Inr gr \<Longrightarrow> length gr = ncols (net_X m)"
  by (auto simp: compute_gradient_def np_dot_vm_def np_div_int_def split: sum.splits if_splits)

lemma encrypt_vector_length:
  "encrypt_vector lib pk v = Inr e \<Longrightarrow> length e = length v"
  unfolding encrypt_vector_def by (rule traverse_length)

lemma compute_partial_gradient_length:
  assumes "compute_partial_gradient lib c g = Inr (e, g')"
  shows "length e = ncols (net_X (model c))"
proof -
  from assms obtain gr where gr: "compute_gradient (model c) = Inr gr"
    and e: "encrypt_vector lib (party_pubkey c) (map (\<lambda>x. fadd x (fst (get_noise g))) gr) = Inr e"
    by (auto simp: compute_partial_gradient_def Let_def split: sum.splits prod.splits)
  from encrypt_vector_length [OF e] compute_gradient_length [OF gr] show ?thesis by simp
qed

lemma gather_gradients_lengths:
  "gather_gradients lib cs g = Inr (grads, g') \<Longrightarrow>
     map length grads = map (\<lambda>c. ncols (net_X (model c))) cs"
proof (induction cs arbitrary: g grads g')
  case Nil
  then show ?case by simp
next
  case (Cons c cs)
  from Cons.prems obtain e g1 rest where
    h: "compute_partial_gradient lib c g = Inr (e, g1)"
    and t: "gather_gradients lib cs g1 = Inr (rest, g')"
    and gr: "grads = e # rest"
    by (auto split: sum.splits prod.splits)
  from Cons.IH [OF t] compute_partial_gradient_length [OF h] gr show ?case by simp
qed

lemma np_sum_axis0_lengths:
  "np_sum_axis0 lib gs = Inr a \<Longrightarrow> u \<in> set gs \<Longrightarrow> v \<in> set gs \<Longrightarrow> length u = length v"
  by (cases gs) (auto simp: list_all_iff split: if_splits)

lemma aggregate_gradients_lengths:
  "aggregate_gradients lib srv gs = Inr a \<Longrightarrow> u \<in> set gs \<Longrightarrow> v \<in> set gs \<Longrightarrow> length u = length v"
  by (auto simp: aggregate_gradients_def split: sum.splits dest: np_sum_axis0_lengths)

lemma gradient_step_weights:
  "gradient_step m agg eta = Inr m' \<Longrightarrow>
     np_isub (weights m) (map (\<lambda>x. fmul (Fin eta) x) agg) = Inr (weights m')"
  unfolding gradient_step_def
  by (cases "np_isub (weights m) (map (\<lambda>x. fmul (Fin eta) x) agg)") auto

lemma client_step_weights:
  "client_step agg eta c = Inr c' \<Longrightarrow>
     np_isub (weights (model c)) (map (\<lambda>x. fmul (Fin eta) x) agg) = Inr (weights (model c'))"
  unfolding client_step_def
  by (cases "gradient_step (model c) agg eta") (auto dest: gradient_step_weights)

lemma traverse_client_step_same_weights:
  assumes t: "traverse (client_step agg eta) cs = Inr cs'" and s: "same_weights cs"
  shows "same_weights cs'"
  unfolding same_weights_def
proof (intro ballI)
  fix a b assume a: "a \<in> set cs'" and b: "b \<in> set cs'"
  from traverse_set [OF t a] obtain a0 where a0: "a0 \<in> set cs" "client_step agg eta a0 = Inr a" by blast
  from traverse_set [OF t b] obtain b0 where b0: "b0 \<in> set cs" "client_step agg eta b0 = Inr b" by blast
  from s a0(1) b0(1) have eq: "weights (model a0) = weights (model b0)"
    unfolding same_weights_def by blast
  note e1 = client_step_weights [OF a0(2)] and e2 = client_step_weights [OF b0(2)]
  from e1 e2 eq show "weights (model a) = weights (model b)"
    by (metis sum.inject(2))
qed

lemma training_round_Inr:
  assumes "training_round lib srv eta cs g = Inr (cs', g', grads)"
  obtains agg0 agg where "gather_gradients lib cs g = Inr (grads, g')"
    and "aggregate_gradients lib srv grads = Inr agg0"
    and "decrypt_gradient lib srv agg0 = Inr agg"
    and "traverse (client_step agg eta) cs = Inr cs'"
proof (cases "gather_gradients lib cs g")
  case (Inl e)
  with assms show ?thesis by (simp add: training_round_def)
next
  case (Inr p)
  obtain grads1 g1 where p: "p = (grads1, g1)" by (cases p)
  show ?thesis
  proof (cases "aggregate_gradients lib srv grads1")
    case (Inl e)
    with assms Inr p show ?thesis by (simp add: training_round_def)
  next
    case agg0: (Inr agg0)
    show ?thesis
    proof (cases "decrypt_gradient lib srv agg0")
      case (Inl e)
      with assms Inr p agg0 show ?thesis by (simp add: training_round_def)
    next
      case agg: (Inr agg)
      show ?thesis
      proof (cases "traverse (client_step agg eta) cs")
        case (Inl e)
        with assms Inr p agg0 agg show ?thesis by (simp add: training_round_def)
      next
        case cs1: (Inr cs1)
        with assms Inr p agg0 agg have "cs1 = cs'" "g1 = g'" "grads1 = grads"
          by (simp_all add: training_round_def)
        with Inr p agg0 agg cs1 that show ?thesis by simp
      qed
    qed
  qed
qed

lemma training_loop_Suc_Inr:
  assumes "training_loop (Suc k) lib srv eta cs g received = Inr res"
  obtains cs1 g1 grads where "training_round lib srv eta cs g = Inr (cs1, g1, grads)"
    and "training_loop k lib srv eta cs1 g1 (received @ [grads]) = Inr res"
proof (cases "training_round lib srv eta cs g")
  case (Inl e)
  with assms show ?thesis by simp
next
  case (Inr p)
  obtain cs1 g1 grads where p: "p = (cs1, g1, grads)" by (cases p)
  with assms Inr that show ?thesis by simp
qed

lemma training_round_same_weights:
  assumes "training_round lib srv eta cs g = Inr (cs', g', grads)" and "same_weights cs"
  shows "same_weights cs'"
proof -
  from assms(1) obtain agg where "traverse (client_step agg eta) cs = Inr cs'"
    by (rule training_round_Inr)
  from traverse_client_step_same_weights [OF this assms(2)] show ?thesis .
qed

lemma training_loop_same_weights:
  "training_loop k lib srv eta cs g received = Inr (cs', g', received') \<Longrightarrow> same_weights cs \<Longrightarrow>
     same_weights cs'"
proof (induction k arbitrary: cs g received)
  case 0
  then show ?case by simp
next
  case (Suc k)
  from Suc.prems(1) obtain cs1 g1 grads where
    r: "training_round lib srv eta cs g = Inr (cs1, g1, grads)"
    and l: "training_loop k lib srv eta cs1 g1 (received @ [grads]) = Inr (cs', g', received')"
    by (rule training_loop_Suc_Inr)
  from training_round_same_weights [OF r Suc.prems(2)] have "same_weights cs1" .
  from Suc.IH [OF l this] show ?case .
qed

lemma training_round_ncols:
  assumes "training_round lib srv eta cs g = Inr (cs', g', grads)"
    and "a \<in> set cs" and "b \<in> set cs"
  shows "ncols (net_X (model a)) = ncols (net_X (model b))"
proof -
  from assms(1) obtain agg where gg: "gather_gradients lib cs g = Inr (grads, g')"
    and ag: "aggregate_gradients lib srv grads = Inr agg"
    by (rule training_round_Inr)
  from gather_gradients_lengths [OF gg]
  have m: "map length grads = map (\<lambda>c. ncols (net_X (model c))) cs" .
  then have len: "length grads = length cs" by (metis length_map)
  from assms(2) obtain i where i: "i < length cs" "cs ! i = a" by (auto simp: in_set_conv_nth)
  from assms(3) obtain j where j: "j < length cs" "cs ! j = b" by (auto simp: in_set_conv_nth)
  from m i len have ia: "length (grads ! i) = ncols (net_X (model a))"
    by (metis nth_map)
  from m j len have jb: "length (grads ! j) = ncols (net_X (model b))"
    by (metis nth_map)
  from i j len have "grads ! i \<in> set grads" "grads ! j \<in> set grads" by simp_all
  from aggregate_gradients_lengths [OF ag this] ia jb show ?thesis by simp
qed

lemma make_clients_zero_weights:
  "c \<in> set (make_clients names Xs ys pk) \<Longrightarrow>
     weights (model c) = np_zeros (ncols (net_X (model c)))"
  by (induction names Xs ys pk rule: make_clients.induct)
     (auto simp: Party_init_def Net_init_def)

lemma session_start_zero_weights:
  "session_start keygen Xs ys cfg = Inr (srv, cs) \<Longrightarrow> c \<in> set cs \<Longrightarrow>
     weights (model c) = np_zeros (ncols (net_X (model c)))"
  by (auto simp: session_start_def Let_def make_clients_zero_weights split: sum.splits)

text \<open>
  Claim C4. Start a session (all weights zero) and let \<open>k \<ge> 1\<close> rounds complete: then
  every party's weight vector equals every other party's. Each completed round applies
  one decrypted aggregate with one learning rate to every party; that the first round
  completes already forces all parties to have the same number of features, so that
  their zero vectors are the same.
\<close>

theorem weights_identical_after_every_round:
  assumes start: "session_start keygen Xs ys cfg = Inr (srv, clients)"
    and run: "training_loop k lib srv eta clients g [] = Inr (clients', g', received)"
    and k: "0 < k"
  shows "\<forall>c \<in> set clients'. \<forall>c' \<in> set clients'. weights (model c) = weights (model c')"
proof -
  from k obtain n where kn: "k = Suc n" by (cases k) auto
  from run obtain cs1 g1 grads where
    r: "training_round lib srv eta clients g = Inr (cs1, g1, grads)"
    and l: "training_loop n lib srv eta cs1 g1 ([] @ [grads]) = Inr (clients', g', received)"
    unfolding kn by (rule training_loop_Suc_Inr)
  have "same_weights clients"
    unfolding same_weights_def
  proof (intro ballI)
    fix a b assume a: "a \<in> set clients" and b: "b \<in> set clients"
    have "weights (model a) = np_zeros (ncols (net_X (model a)))"
      by (rule session_start_zero_weights [OF start a])
    also have "\<dots> = np_zeros (ncols (net_X (model b)))"
      by (simp only: training_round_ncols [OF r a b])
    also have "\<dots> = weights (model b)"
      by (rule sym) (rule session_start_zero_weights [OF start b])
    finally show "weights (model a) = weights (model b)" .
  qed
  from training_round_same_weights [OF r this] have "same_weights cs1" .
  from training_loop_same_weights [OF l this] show ?thesis unfolding same_weights_def .
qed


theorem weights_identical_after_every_round_witness:
  "\<exists>srv clients clients' g' received.
     session_start (\<lambda>_. Inr 7)
        [\<lparr>rows = [[Fin 1]], ncols = Suc 0\<rparr>, \<lparr>rows = [[Fin 1]], ncols = Suc 0\<rparr>,
         \<lparr>rows = [[Fin 1]], ncols = Suc 0\<rparr>]
        [[Fin 1], [Fin 2], [Fin 3]]
        \<lparr>cfg_n_clients = 3, cfg_n_iter = 1, cfg_key_length = 1024, cfg_eta = 1\<rparr>
       = Inr (srv, clients)
     \<and> training_loop (Suc 0) exact_paillier srv 1 clients (\<lambda>_. 0) []
         = Inr (clients', g', received)
     \<and> map (\<lambda>c. weights (model c)) clients' = [[Fin 2], [Fin 2], [Fin 2]]
     \<and> (\<forall>c \<in> set clients'. \<forall>c' \<in> set clients'. weights (model c) = weights (model c'))"
proof -
  let ?Xs = "[\<lparr>rows = [[Fin 1]], ncols = Suc 0\<rparr>, \<lparr>rows = [[Fin 1]], ncols = Suc 0\<rparr>,
         \<lparr>rows = [[Fin 1]], ncols = Suc 0\<rparr>]"
  let ?ys = "[[Fin 1], [Fin 2], [Fin 3]]"
  let ?cfg = "\<lparr>cfg_n_clients = 3, cfg_n_iter = 1, cfg_key_length = 1024, cfg_eta = 1\<rparr>"
  let ?srv = "\<lparr>pubkey = PubKey 7, privkey = PrivKey 7, n_clients = 3\<rparr>"
  let ?cl = "\<lambda>nm t w. \<lparr>name = nm, model = \<lparr>net_X = \<lparr>rows = [[Fin 1]], ncols = Suc 0\<rparr>,
                 net_y = [Fin t], weights = [Fin w]\<rparr>, party_pubkey = Some (PubKey 7)\<rparr>"
  let ?clients = "[?cl ''Hospital 1'' 1 0, ?cl ''Hospital 2'' 2 0, ?cl ''Hospital 3'' 3 0]"
  let ?clients' = "[?cl ''Hospital 1'' 1 2, ?cl ''Hospital 2'' 2 2, ?cl ''Hospital 3'' 3 2]"
  let ?grads = "[[Enc (PubKey 7) (- 1)], [Enc (PubKey 7) (- 2)], [Enc (PubKey 7) (- 3)]]"
  have names: "hospital_names 3 = [''Hospital 1'', ''Hospital 2'', ''Hospital 3'']"
    by (simp add: hospital_names_def upt_rec)
  have start: "session_start (\<lambda>_. Inr 7) ?Xs ?ys ?cfg = Inr (?srv, ?clients)"
    by (simp add: session_start_def names Server_init_def Party_init_def Net_init_def
        np_zeros_def)
  have grad: "compute_partial_gradient exact_paillier (?cl nm t 0) (\<lambda>_. 0)
                = Inr ([Enc (PubKey 7) (- t)], \<lambda>_. 0)"
    if "- t \<in> binary64" for nm t
    using that
    by (simp add: compute_partial_gradient_def compute_gradient_def predict_def np_dot_mv_def
        np_sub_def np_dot_vm_def np_div_int_def get_noise_def encrypt_vector_def fsub_def
        exact_paillier_def rnd_exact)
  have gather: "gather_gradients exact_paillier ?clients (\<lambda>_. 0) = Inr (?grads, \<lambda>_. 0)"
    by (simp add: grad)
  have agg: "aggregate_gradients exact_paillier ?srv ?grads = Inr (AggVec [Enc (PubKey 7) (- 2)])"
    by (simp add: aggregate_gradients_def enc_vec_add_def exact_paillier_def)
  have dec: "decrypt_gradient exact_paillier ?srv (AggVec [Enc (PubKey 7) (- 2)]) = Inr [Fin (- 2)]"
    by (simp add: decrypt_gradient_def decrypt_vector_def exact_paillier_def)
  have step: "client_step [Fin (- 2)] 1 (?cl nm t 0) = Inr (?cl nm t 2)" for nm t
    by (simp add: client_step_def gradient_step_def np_isub_def fsub_def)
  have trav: "traverse (client_step [Fin (- 2)] 1) ?clients = Inr ?clients'"
    by (simp add: step)
  have round: "training_round exact_paillier ?srv 1 ?clients (\<lambda>_. 0)
                 = Inr (?clients', \<lambda>_. 0, ?grads)"
    unfolding training_round_def
    by (simp only: gather agg dec trav sum.case prod.case)
  have run: "training_loop (Suc 0) exact_paillier ?srv 1 ?clients (\<lambda>_. 0) []
               = Inr (?clients', \<lambda>_. 0, [?grads])"
    by (simp only: training_loop.simps round sum.case prod.case append_Nil)
  have k: "0 < Suc 0" by simp
  have w: "map (\<lambda>c. weights (model c)) ?clients' = [[Fin 2], [Fin 2], [Fin 2]]" by simp
  note same = weights_identical_after_every_round [OF start run k]
  show ?thesis
    by (rule exI [of _ ?srv], rule exI [of _ ?clients], rule exI [of _ ?clients'],
        rule exI [of _ "\<lambda>_. 0"], rule exI [of _ "[?grads]"],
        intro conjI, rule start, rule run, rule w, rule same)
qed

subsection \<open>Session start: the number of parties and the key length\<close>

lemma length_hospital_names: "length (hospital_names n) = nat n"
  by (simp add: hospital_names_def)

lemma length_make_clients:
  "length (make_clients names Xs ys pk) = min (length names) (min (length Xs) (length ys))"
  by (induction names Xs ys pk rule: make_clients.induct) auto

text \<open>
  Claim C2, as stated, fails: a session with two parties is constructed like any other.
  Lines 236 to 249 compare the number of parties with nothing, and the code has no
  error for too few parties.
\<close>

theorem session_start_two_parties_counterexample:
  "\<not> isl (session_start (const_keygen 7)
            [\<lparr>rows = [[Fin 1]], ncols = 1\<rparr>, \<lparr>rows = [[Fin 1]], ncols = 1\<rparr>]
            [[Fin 1], [Fin 2]]
            \<lparr>cfg_n_clients = 2, cfg_n_iter = 1, cfg_key_length = 1024, cfg_eta = 1\<rparr>)"
  by (simp add: session_start_def Server_init_def const_keygen_def)

text \<open>
  Claim C2, amended. Session start checks nothing about the number of parties:
  whenever the key generation succeeds, the session is constructed, for \<open>N = 2\<close> as for
  \<open>N = 3\<close>, with the server's \<open>n_clients\<close> as configured and one party for each triple
  of \<^verbatim>\<open>zip(names, X, y)\<close>.
\<close>

theorem session_start_any_party_count:
  assumes "keygen (cfg_key_length cfg) = Inr k"
  shows "\<exists>srv clients. session_start keygen Xs ys cfg = Inr (srv, clients)
           \<and> n_clients srv = cfg_n_clients cfg
           \<and> length clients = min (nat (cfg_n_clients cfg)) (min (length Xs) (length ys))"
  using assms
  by (simp add: session_start_def Server_init_def length_make_clients length_hospital_names)

theorem session_start_any_party_count_witness:
  "\<exists>srv clients. session_start (const_keygen 7)
            [\<lparr>rows = [[Fin 1]], ncols = 1\<rparr>, \<lparr>rows = [[Fin 1]], ncols = 1\<rparr>]
            [[Fin 1], [Fin 2]]
            \<lparr>cfg_n_clients = 2, cfg_n_iter = 1, cfg_key_length = 1024, cfg_eta = 1\<rparr>
          = Inr (srv, clients)
        \<and> n_clients srv = 2 \<and> length clients = 2"
proof -
  have k: "const_keygen 7
             (cfg_key_length \<lparr>cfg_n_clients = 2, cfg_n_iter = 1, cfg_key_length = 1024, cfg_eta = 1\<rparr>)
           = Inr 7"
    by (simp add: const_keygen_def)
  from session_start_any_party_count
      [of "const_keygen 7"
          "\<lparr>cfg_n_clients = 2, cfg_n_iter = 1, cfg_key_length = 1024, cfg_eta = 1\<rparr>" 7
          "[\<lparr>rows = [[Fin 1]], ncols = 1\<rparr>, \<lparr>rows = [[Fin 1]], ncols = 1\<rparr>]"
          "[[Fin 1], [Fin 2]]", OF k]
  show ?thesis by (simp add: numeral_2_eq_2)
qed

text \<open>
  Claim C6, as stated, fails: with a generator that returns a key pair for a length of
  512 bits, as the library's does, the server is constructed. \<^verbatim>\<open>Server.__init__\<close>
  hands \<^verbatim>\<open>key_length\<close> to the library unchecked.
\<close>

theorem Server_init_weak_key_counterexample:
  "\<not> isl (Server_init (const_keygen 7) 512 3)"
  by (simp add: Server_init_def const_keygen_def)

text \<open>
  Claim C6, amended. The construction of the server checks no key strength: it fails
  exactly when the library's key generation fails, with the library's exception, and
  for every length for which the library returns a key pair (below 1024 bits too) the
  server holds that key pair.
\<close>

theorem Server_init_no_strength_check:
  "(\<forall>e. (Server_init keygen key_length n = Inl e) = (keygen key_length = Inl e))
   \<and> (\<forall>k. keygen key_length = Inr k \<longrightarrow>
          Server_init keygen key_length n
            = Inr \<lparr>pubkey = PubKey k, privkey = PrivKey k, n_clients = n\<rparr>)"
  by (cases "keygen key_length") (simp_all add: Server_init_def)

theorem Server_init_no_strength_check_witness:
  "Server_init (const_keygen 7) 512 3
     = Inr \<lparr>pubkey = PubKey 7, privkey = PrivKey 7, n_clients = 3\<rparr>"
proof -
  have "const_keygen 7 512 = Inr 7" by (simp add: const_keygen_def)
  with Server_init_no_strength_check [of "const_keygen 7" 512 3] show ?thesis by blast
qed

subsection \<open>Non-finite gradients\<close>

lemma fsub_NaN: "fsub x NaN = NaN"
  by (cases x) (simp_all add: fsub_def)

lemma map2_fsub_NaN: "length w = d \<Longrightarrow> map2 fsub w (replicate d NaN) = replicate d NaN"
proof (induction w arbitrary: d)
  case Nil
  then show ?case by simp
next
  case (Cons x w)
  then obtain d' where "d = Suc d'" "length w = d'" by (cases d) auto
  with Cons.IH [of d'] show ?case by (simp add: fsub_NaN)
qed

lemma compute_gradient_no_rows:
  assumes "rows (net_X m) = []" and "net_y m = []" and "length (weights m) = ncols (net_X m)"
  shows "compute_gradient m = Inr (replicate (ncols (net_X m)) NaN)"
proof -
  have p: "predict m (net_X m) = Inr []"
    using assms by (simp add: predict_def np_dot_mv_def)
  have s: "np_sub [] (net_y m) = Inr []"
    using assms by (simp add: np_sub_def)
  have v: "np_dot_vm [] (net_X m) = Inr (replicate (ncols (net_X m)) (Fin 0))"
    using assms by (simp add: np_dot_vm_def map_replicate_const)
  have q: "np_div_int (replicate (ncols (net_X m)) (Fin 0)) (int (length (rows (net_X m))))
             = Inr (replicate (ncols (net_X m)) NaN)"
    using assms by (simp add: np_div_int_def)
  show ?thesis
    unfolding compute_gradient_def by (simp only: p s v q sum.case)
qed

lemma gradient_step_NaN:
  assumes "length (weights m) = d"
  shows "gradient_step m (replicate d NaN) eta = Inr (m\<lparr>weights := replicate d NaN\<rparr>)"
proof -
  have "map (\<lambda>g. fmul (Fin eta) g) (replicate d NaN) = replicate d NaN" by simp
  moreover have "np_isub (weights m) (replicate d NaN) = Inr (replicate d NaN)"
    using assms by (simp add: np_isub_def map2_fsub_NaN)
  ultimately show ?thesis by (simp add: gradient_step_def)
qed

lemma fit_loop_no_rows:
  assumes "rows (net_X m) = []" and "net_y m = []" and "length (weights m) = ncols (net_X m)"
  shows "fit_loop (Suc n) eta m = Inr (m\<lparr>weights := replicate (ncols (net_X m)) NaN\<rparr>)"
  using assms
proof (induction n arbitrary: m)
  case 0
  from compute_gradient_no_rows [OF 0] gradient_step_NaN [OF 0(3)]
  show ?case by simp
next
  case (Suc n)
  let ?m' = "m\<lparr>weights := replicate (ncols (net_X m)) NaN\<rparr>"
  have a: "rows (net_X ?m') = []" "net_y ?m' = []" "length (weights ?m') = ncols (net_X ?m')"
    using Suc.prems by simp_all
  have "fit_loop (Suc (Suc n)) eta m = fit_loop (Suc n) eta ?m'"
    using compute_gradient_no_rows [OF Suc.prems] gradient_step_NaN [OF Suc.prems(3)]
    by simp
  also have "\<dots> = Inr (?m'\<lparr>weights := replicate (ncols (net_X ?m')) NaN\<rparr>)"
    by (rule Suc.IH [OF a])
  finally show ?case by simp
qed

text \<open>
  Claim C9, as stated, fails: nothing looks at a gradient after it is computed. For a
  party with no training rows (one feature) the gradient is \<open>0/0\<close>, that is NaN, and one
  iteration of \<^verbatim>\<open>Net.fit\<close> writes it into the weights; no error is raised.
\<close>

theorem fit_propagates_nan_counterexample:
  "map_sum id weights (fit (Net_init \<lparr>rows = [], ncols = 1\<rparr> []) 1 (1 / 100)) = Inr [NaN]"
proof -
  have "fit_loop (Suc 0) (1 / 100) (Net_init \<lparr>rows = [], ncols = 1\<rparr> [])
          = Inr ((Net_init \<lparr>rows = [], ncols = 1\<rparr> [])
                   \<lparr>weights := replicate (ncols (net_X (Net_init \<lparr>rows = [], ncols = 1\<rparr> []))) NaN\<rparr>)"
    by (rule fit_loop_no_rows) (simp_all add: Net_init_def np_zeros_def)
  then show ?thesis by (simp add: fit_def Net_init_def)
qed

text \<open>
  Claim C9, amended. Non-finite gradient values are not detected after the gradient
  computation: in \<^verbatim>\<open>Net.fit\<close> they go into the party's weights. For a model with no
  training rows, after any positive number of iterations \<^verbatim>\<open>fit\<close> returns normally and
  every weight is NaN.
\<close>

theorem fit_no_rows_nan_weights:
  assumes "rows X0 = []" and "0 < n_iter"
  shows "map_sum id weights (fit (Net_init X0 []) n_iter eta) = Inr (replicate (ncols X0) NaN)"
proof -
  from assms(2) obtain n where n: "nat n_iter = Suc n" by (cases "nat n_iter") auto
  have "fit_loop (Suc n) eta (Net_init X0 [])
          = Inr ((Net_init X0 [])\<lparr>weights := replicate (ncols (net_X (Net_init X0 []))) NaN\<rparr>)"
    using assms(1) by (intro fit_loop_no_rows) (simp_all add: Net_init_def np_zeros_def)
  then show ?thesis by (simp add: fit_def n Net_init_def)
qed

theorem fit_no_rows_nan_weights_witness:
  "map_sum id weights (fit (Net_init \<lparr>rows = [], ncols = 2\<rparr> []) 30 (3 / 2)) = Inr [NaN, NaN]"
proof -
  have a: "rows \<lparr>rows = [], ncols = 2\<rparr> = []" by simp
  have b: "(0::int) < 30" by simp
  from fit_no_rows_nan_weights [OF a b, of "3 / 2"] show ?thesis
    by (simp add: numeral_2_eq_2)
qed


subsection \<open>What the server receives in a round\<close>

text \<open>
  Claim C1 against the code. With three parties and one round, the argument of the one
  call of \<^verbatim>\<open>server.aggregate_gradients\<close> is the list of the three parties' encrypted
  gradient vectors, each by itself (the gradients are \<open>-1\<close>, \<open>-2\<close> and \<open>-3\<close>): the
  server receives every party's ciphertext and adds them itself. The ring hand-off of
  the module's description (lines 42 to 46), in which each party adds its vector to the
  running sum and the server receives one combined vector, is not what lines 254 to 264
  do.
\<close>

theorem server_receives_every_party_vector:
  "map_sum id server_received
     (hybrid_learning exact_paillier (const_keygen 7) (const_rng 0)
        [\<lparr>rows = [[Fin 1]], ncols = 1\<rparr>, \<lparr>rows = [[Fin 1]], ncols = 1\<rparr>,
         \<lparr>rows = [[Fin 1]], ncols = 1\<rparr>]
        [[Fin 1], [Fin 2], [Fin 3]]
        \<lparr>rows = [[Fin 1]], ncols = 1\<rparr> [Fin 2]
        \<lparr>cfg_n_clients = 3, cfg_n_iter = 1, cfg_key_length = 1024, cfg_eta = 1\<rparr>)
   = Inr [[[Enc (PubKey 7) (- 1)], [Enc (PubKey 7) (- 2)], [Enc (PubKey 7) (- 3)]]]"
proof -
  let ?Xs = "[\<lparr>rows = [[Fin 1]], ncols = Suc 0\<rparr>, \<lparr>rows = [[Fin 1]], ncols = Suc 0\<rparr>,
         \<lparr>rows = [[Fin 1]], ncols = Suc 0\<rparr>]"
  let ?ys = "[[Fin 1], [Fin 2], [Fin 3]]"
  let ?cfg = "\<lparr>cfg_n_clients = 3, cfg_n_iter = 1, cfg_key_length = 1024, cfg_eta = 1\<rparr>"
  let ?srv = "\<lparr>pubkey = PubKey 7, privkey = PrivKey 7, n_clients = 3\<rparr>"
  let ?cl = "\<lambda>nm t w. \<lparr>name = nm, model = \<lparr>net_X = \<lparr>rows = [[Fin 1]], ncols = Suc 0\<rparr>,
                 net_y = [Fin t], weights = [Fin w]\<rparr>, party_pubkey = Some (PubKey 7)\<rparr>"
  let ?clients = "[?cl ''Hospital 1'' 1 0, ?cl ''Hospital 2'' 2 0, ?cl ''Hospital 3'' 3 0]"
  let ?clients' = "[?cl ''Hospital 1'' 1 2, ?cl ''Hospital 2'' 2 2, ?cl ''Hospital 3'' 3 2]"
  let ?grads = "[[Enc (PubKey 7) (- 1)], [Enc (PubKey 7) (- 2)], [Enc (PubKey 7) (- 3)]]"
  have rng: "const_rng 0 = (\<lambda>_. 0)" by (rule ext) (simp add: const_rng_def)
  have names: "hospital_names 3 = [''Hospital 1'', ''Hospital 2'', ''Hospital 3'']"
    by (simp add: hospital_names_def upt_rec)
  have start: "session_start (const_keygen 7) ?Xs ?ys ?cfg = Inr (?srv, ?clients)"
    by (simp add: session_start_def names Server_init_def Party_init_def Net_init_def
        np_zeros_def const_keygen_def)
  have grad: "compute_partial_gradient exact_paillier (?cl nm t 0) (\<lambda>_. 0)
                = Inr ([Enc (PubKey 7) (- t)], \<lambda>_. 0)"
    if "- t \<in> binary64" for nm t
    using that
    by (simp add: compute_partial_gradient_def compute_gradient_def predict_def np_dot_mv_def
        np_sub_def np_dot_vm_def np_div_int_def get_noise_def encrypt_vector_def fsub_def
        exact_paillier_def rnd_exact)
  have gather: "gather_gradients exact_paillier ?clients (\<lambda>_. 0) = Inr (?grads, \<lambda>_. 0)"
    by (simp add: grad)
  have agg: "aggregate_gradients exact_paillier ?srv ?grads = Inr (AggVec [Enc (PubKey 7) (- 2)])"
    by (simp add: aggregate_gradients_def enc_vec_add_def exact_paillier_def)
  have dec: "decrypt_gradient exact_paillier ?srv (AggVec [Enc (PubKey 7) (- 2)]) = Inr [Fin (- 2)]"
    by (simp add: decrypt_gradient_def decrypt_vector_def exact_paillier_def)
  have step: "client_step [Fin (- 2)] 1 (?cl nm t 0) = Inr (?cl nm t 2)" for nm t
    by (simp add: client_step_def gradient_step_def np_isub_def fsub_def)
  have trav: "traverse (client_step [Fin (- 2)] 1) ?clients = Inr ?clients'"
    by (simp add: step)
  have round: "training_round exact_paillier ?srv 1 ?clients (\<lambda>_. 0)
                 = Inr (?clients', \<lambda>_. 0, ?grads)"
    unfolding training_round_def
    by (simp only: gather agg dec trav sum.case prod.case)
  have run: "training_loop (Suc 0) exact_paillier ?srv 1 ?clients (\<lambda>_. 0) []
               = Inr (?clients', \<lambda>_. 0, [?grads])"
    by (simp only: training_loop.simps round sum.case prod.case append_Nil)
  have rep: "report_client \<lparr>rows = [[Fin 1]], ncols = Suc 0\<rparr> [Fin 2] (?cl nm t 2) = Inr (nm, Fin 0)"
    for nm t
    by (simp add: report_client_def predict_def np_dot_mv_def mean_square_error_def np_sub_def
        np_mean_def fsub_def)
  have reps: "traverse (report_client \<lparr>rows = [[Fin 1]], ncols = Suc 0\<rparr> [Fin 2]) ?clients'
                = Inr [(''Hospital 1'', Fin 0), (''Hospital 2'', Fin 0), (''Hospital 3'', Fin 0)]"
    by (simp add: rep)
  have n: "nat (cfg_n_iter ?cfg) = Suc 0" "cfg_eta ?cfg = 1" by simp_all
  have "hybrid_learning exact_paillier (const_keygen 7) (\<lambda>_. 0) ?Xs ?ys
            \<lparr>rows = [[Fin 1]], ncols = Suc 0\<rparr> [Fin 2] ?cfg
          = Inr \<lparr>final_clients = ?clients', server_received = [?grads],
                 printed = [(''Hospital 1'', Fin 0), (''Hospital 2'', Fin 0), (''Hospital 3'', Fin 0)]\<rparr>"
    unfolding hybrid_learning_def
    by (simp only: start n run reps sum.case prod.case)
  then show ?thesis by (simp add: rng)
qed

end
